theory Spec2Isabelle
  imports Main "HOL-Library.Word"
begin

unbundle bit_operations_syntax

section \<open>Data model\<close>

text \<open>
  Python \<open>bytes\<close> are lists of 8-bit values; reading one element gives an integer in
  \<open>0..255\<close> (\<open>unat\<close>). Python integers are unbounded: the filter field
  \<open>bloom_int\<close> is an \<open>int\<close>, on which \<open>drop_bit\<close> is Python's \<open>>>\<close> (floor) and
  \<open>AND\<close> is Python's \<open>&\<close> (two's complement). Bit indices are built from byte values by
  \<open><<\<close>, \<open>|\<close> and \<open>& 2047\<close> only, so they never go negative and are kept as \<open>nat\<close>.
\<close>

type_synonym byte = "8 word"
type_synonym bytes = "byte list"

datatype error = IndexError | ValueError string

section \<open>Index derivation and membership test (app.py, lines 23-35)\<close>

text \<open>\<open>h[k]\<close> for \<open>k \<ge> 0\<close>: the byte as an integer, IndexError past the end.\<close>

definition byte_at :: "bytes \<Rightarrow> nat \<Rightarrow> error + nat" where
  "byte_at h k = (if k < length h then Inr (unat (h ! k)) else Inl IndexError)"

text \<open>The element expression \<open>((h[2*i] << 8) | h[2*i + 1]) & 2047\<close>.\<close>

definition bloom_index :: "bytes \<Rightarrow> nat \<Rightarrow> error + nat" where
  "bloom_index h i =
     (case byte_at h (2 * i) of
        Inl e \<Rightarrow> Inl e
      | Inr hi \<Rightarrow>
          (case byte_at h (2 * i + 1) of
             Inl e \<Rightarrow> Inl e
           | Inr lo \<Rightarrow> Inr ((push_bit 8 hi OR lo) AND 2047)))"

text \<open>A list comprehension: the elements in order, stopping at the first raise.\<close>

fun comprehension :: "('a \<Rightarrow> error + 'b) \<Rightarrow> 'a list \<Rightarrow> error + 'b list" where
  "comprehension f [] = Inr []"
| "comprehension f (x # xs) =
     (case f x of
        Inl e \<Rightarrow> Inl e
      | Inr y \<Rightarrow> (case comprehension f xs of Inl e \<Rightarrow> Inl e | Inr ys \<Rightarrow> Inr (y # ys)))"

text \<open>
  \<open>bloom_indexes(data)\<close>. The hash \<open>Web3.keccak\<close> belongs to an external library; it is the
  parameter \<open>keccak\<close>, a function from byte strings to digests. \<open>range(3)\<close> is \<open>[0..<3]\<close>.
\<close>

definition bloom_indexes :: "(bytes \<Rightarrow> bytes) \<Rightarrow> bytes \<Rightarrow> error + nat list" where
  "bloom_indexes keccak data = (let h = keccak data in comprehension (bloom_index h) [0..<3])"

text \<open>The loop of \<open>bloom_check\<close>: return False at the first index whose bit is clear.\<close>

fun bloom_check_loop :: "int \<Rightarrow> nat list \<Rightarrow> bool" where
  "bloom_check_loop bloom_int [] = True"
| "bloom_check_loop bloom_int (idx # rest) =
     (if (drop_bit idx bloom_int) AND 1 = 0 then False else bloom_check_loop bloom_int rest)"

definition bloom_check :: "(bytes \<Rightarrow> bytes) \<Rightarrow> int \<Rightarrow> bytes \<Rightarrow> error + bool" where
  "bloom_check keccak bloom_int data =
     (case bloom_indexes keccak data of
        Inl e \<Rightarrow> Inl e
      | Inr idxs \<Rightarrow> Inr (bloom_check_loop bloom_int idxs))"

text \<open>
  The specification's formula for the \<open>i\<close>-th index, on a digest \<open>h\<close>: bytes \<open>2 * i\<close> and
  \<open>2 * i + 1\<close> as a big-endian 16-bit value, modulo 2048. It is what \<open>bloom_indexes\<close> is
  compared with.
\<close>

definition spec_index :: "bytes \<Rightarrow> nat \<Rightarrow> nat" where
  "spec_index h i = (push_bit 8 (unat (h ! (2 * i))) OR unat (h ! (2 * i + 1))) mod 2048"

section \<open>Hex parsing (app.py, lines 44-48)\<close>

text \<open>
  Python's built-in \<open>bytes.fromhex\<close>, as its documentation gives it: ASCII whitespace is
  skipped before a byte, every byte is two hexadecimal digits, anything else raises
  ValueError (the position that CPython appends to its message is left out).
\<close>

definition is_space :: "char \<Rightarrow> bool" where
  "is_space c = ((of_char c :: nat) \<in> {9, 10, 11, 12, 13, 32})"

definition hex_digit :: "char \<Rightarrow> nat option" where
  "hex_digit c =
     (let n = (of_char c :: nat)
      in if 48 \<le> n \<and> n \<le> 57 then Some (n - 48)
         else if 97 \<le> n \<and> n \<le> 102 then Some (n - 87)
         else if 65 \<le> n \<and> n \<le> 70 then Some (n - 55)
         else None)"

abbreviation fromhex_error :: error where
  "fromhex_error \<equiv> ValueError ''non-hexadecimal number found in fromhex() arg''"

fun fromhex :: "string \<Rightarrow> error + bytes" where
  "fromhex [] = Inr []"
| "fromhex [c] = (if is_space c then Inr [] else Inl fromhex_error)"
| "fromhex (c # d # rest) =
     (if is_space c then fromhex (d # rest)
      else (case (hex_digit c, hex_digit d) of
              (Some hi, Some lo) \<Rightarrow>
                (case fromhex rest of
                   Inl e \<Rightarrow> Inl e
                 | Inr bs \<Rightarrow> Inr (of_nat (16 * hi + lo) # bs))
            | _ \<Rightarrow> Inl fromhex_error))"

text \<open>\<open>parse_hex(s, kind)\<close>: \<open>s.startswith("0x")\<close> is \<open>take 2 s = ''0x''\<close>, \<open>s[2:]\<close> is \<open>drop 2 s\<close>.\<close>

definition parse_hex :: "string \<Rightarrow> string \<Rightarrow> error + bytes" where
  "parse_hex s kind =
     (if take 2 s \<noteq> ''0x'' then Inl (ValueError (kind @ '' must be 0x-prefixed hex''))
      else let h = drop 2 s in fromhex h)"

text \<open>
  Lower-case hexadecimal text of a byte string (Python's \<open>bytes.hex\<close>), to state what
  \<open>parse_hex\<close> accepts.
\<close>

definition hex_char :: "nat \<Rightarrow> char" where
  "hex_char n = (if n < 10 then char_of (48 + n) else char_of (87 + n))"

definition hex_of :: "bytes \<Rightarrow> string" where
  "hex_of bs = concat (map (\<lambda>b. [hex_char (unat b div 16), hex_char (unat b mod 16)]) bs)"

section \<open>Strict verification (app.py, lines 115-124)\<close>

text \<open>
  The lines printed under \<open>--verify\<close> once \<open>fetch_logs_count\<close> has returned \<open>count\<close>.
  \<open>addr_ok\<close> and \<open>topic_ok\<close> are \<open>None\<close> when the option was not given, else the result
  of \<open>bloom_check\<close>; \<open>x is False\<close> is \<open>x = Some False\<close>.
\<close>

datatype line = LogsFound int | SoundnessWarning | FalsePositiveNote

definition verify_lines :: "bool option \<Rightarrow> bool option \<Rightarrow> int \<Rightarrow> line list" where
  "verify_lines addr_ok topic_ok count =
     [LogsFound count]
     @ (if (addr_ok = Some False \<or> topic_ok = Some False) \<and> count > 0
        then [SoundnessWarning] else [])
     @ (if (addr_ok = Some True \<or> topic_ok = Some True) \<and> count = 0
        then [FalsePositiveNote] else [])"

section \<open>Filter construction\<close>

text \<open>
  The program only reads filters; a block's filter is built where the block is produced.
  The specification describes that construction (the field obtained by setting exactly the
  three derived bits of every inserted candidate); it is written out here, with the
  program's own \<open>bloom_indexes\<close>, to state the properties that relate the membership test
  to it.
\<close>

definition set_bits :: "int \<Rightarrow> nat list \<Rightarrow> int" where
  "set_bits field idxs = fold (\<lambda>idx f. f OR push_bit idx 1) idxs field"

fun bloom_insert :: "(bytes \<Rightarrow> bytes) \<Rightarrow> int \<Rightarrow> bytes list \<Rightarrow> error + int" where
  "bloom_insert keccak field [] = Inr field"
| "bloom_insert keccak field (c # cs) =
     (case bloom_indexes keccak c of
        Inl e \<Rightarrow> Inl e
      | Inr idxs \<Rightarrow> bloom_insert keccak (set_bits field idxs) cs)"

definition bloom_of :: "(bytes \<Rightarrow> bytes) \<Rightarrow> bytes list \<Rightarrow> error + int" where
  "bloom_of keccak cs = bloom_insert keccak 0 cs"

section \<open>Keccak-256\<close>

text \<open>
  Modelled from the spec: the hash of section 4.1, Keccak-256, which the program takes from
  the web3 library. It is the sponge over Keccak-f[1600] with rate 136 bytes, padding
  \<open>0x01 .. 0x80\<close> and a 32-byte output. The state is 25 lanes of 64 bits, lane \<open>(x, y)\<close> at
  position \<open>x + 5 * y\<close>, each an \<open>int\<close> in \<open>[0, 2 ^ 64)\<close> with the wrap-around written out.
  The theorems about the program hold for any hash with 32-byte digests; this one
  instantiates them.
\<close>

type_synonym lane = int

definition rotl64 :: "lane \<Rightarrow> nat \<Rightarrow> lane" where
  "rotl64 w n = (push_bit n w mod 2 ^ 64) OR drop_bit (64 - n) w"

definition not_and64 :: "lane \<Rightarrow> lane \<Rightarrow> lane" where
  "not_and64 a b = NOT a AND b"

definition round_constants :: "lane list" where
  "round_constants =
    [0x0000000000000001, 0x0000000000008082, 0x800000000000808A, 0x8000000080008000,
     0x000000000000808B, 0x0000000080000001, 0x8000000080008081, 0x8000000000008009,
     0x000000000000008A, 0x0000000000000088, 0x0000000080008009, 0x000000008000000A,
     0x000000008000808B, 0x800000000000008B, 0x8000000000008089, 0x8000000000008003,
     0x8000000000008002, 0x8000000000000080, 0x000000000000800A, 0x800000008000000A,
     0x8000000080008081, 0x8000000000008080, 0x0000000080000001, 0x8000000080008008]"

definition rotation_offsets :: "nat list" where
  "rotation_offsets =
    [ 0,  1, 62, 28, 27,
     36, 44,  6, 55, 20,
      3, 10, 43, 25, 39,
     41, 45, 15, 21,  8,
     18,  2, 61, 56, 14]"

definition theta_C_at :: "lane list \<Rightarrow> nat \<Rightarrow> lane" where
  "theta_C_at A x = A ! x XOR A ! (x + 5) XOR A ! (x + 10) XOR A ! (x + 15) XOR A ! (x + 20)"

definition theta_D_at :: "lane list \<Rightarrow> nat \<Rightarrow> lane" where
  "theta_D_at C x = C ! ((x + 4) mod 5) XOR rotl64 (C ! ((x + 1) mod 5)) 1"

definition theta_at :: "lane list \<Rightarrow> lane list \<Rightarrow> nat \<Rightarrow> lane" where
  "theta_at D A i = A ! i XOR D ! (i mod 5)"

definition theta :: "lane list \<Rightarrow> lane list" where
  "theta A = map (theta_at (map (theta_D_at (map (theta_C_at A) [0..<5])) [0..<5]) A) [0..<25]"

text \<open>Rho and pi together: the lane that lands on position \<open>i\<close>, rotated by its offset.\<close>

definition rho_pi_src :: "nat \<Rightarrow> nat" where
  "rho_pi_src i = (i mod 5 + 3 * (i div 5)) mod 5 + 5 * (i mod 5)"

definition rho_pi_at :: "lane list \<Rightarrow> nat \<Rightarrow> lane" where
  "rho_pi_at A i = rotl64 (A ! rho_pi_src i) (rotation_offsets ! rho_pi_src i)"

definition rho_pi :: "lane list \<Rightarrow> lane list" where
  "rho_pi A = map (rho_pi_at A) [0..<25]"

definition chi_at :: "lane list \<Rightarrow> nat \<Rightarrow> lane" where
  "chi_at B i = B ! i XOR not_and64 (B ! ((i mod 5 + 1) mod 5 + 5 * (i div 5)))
                                    (B ! ((i mod 5 + 2) mod 5 + 5 * (i div 5)))"

definition chi :: "lane list \<Rightarrow> lane list" where
  "chi B = map (chi_at B) [0..<25]"

definition iota :: "lane \<Rightarrow> lane list \<Rightarrow> lane list" where
  "iota rc A = A[0 := A ! 0 XOR rc]"

definition keccak_round :: "lane list \<Rightarrow> lane \<Rightarrow> lane list" where
  "keccak_round A rc = iota rc (chi (rho_pi (theta A)))"

definition keccak_f :: "lane list \<Rightarrow> lane list" where
  "keccak_f A = foldl keccak_round A round_constants"

text \<open>Lanes are little-endian in the byte stream.\<close>

definition lane_of_bytes :: "bytes \<Rightarrow> lane" where
  "lane_of_bytes bs = foldr (\<lambda>b w. 256 * w + uint b) bs 0"

definition byte_of_lane :: "lane \<Rightarrow> nat \<Rightarrow> byte" where
  "byte_of_lane w k = word_of_int (w div 256 ^ k mod 256)"

definition bytes_of_lane :: "lane \<Rightarrow> bytes" where
  "bytes_of_lane w = map (byte_of_lane w) [0..<8]"

definition pad :: "bytes \<Rightarrow> bytes" where
  "pad m = (let n = 136 - length m mod 136
            in if n = 1 then m @ [0x81] else m @ [0x01] @ replicate (n - 2) 0 @ [0x80])"

definition absorb_lane :: "lane list \<Rightarrow> bytes \<Rightarrow> nat \<Rightarrow> lane" where
  "absorb_lane A blk i =
     (if i < 17 then A ! i XOR lane_of_bytes (take 8 (drop (8 * i) blk)) else A ! i)"

definition absorb_block :: "lane list \<Rightarrow> bytes \<Rightarrow> lane list" where
  "absorb_block A blk = keccak_f (map (absorb_lane A blk) [0..<25])"

function absorb :: "lane list \<Rightarrow> bytes \<Rightarrow> lane list" where
  "absorb A p = (if p = [] then A else absorb (absorb_block A (take 136 p)) (drop 136 p))"
  by pat_completeness auto
termination
  by (relation "measure (\<lambda>(A, p). length p)") auto

declare absorb.simps [simp del]

definition squeeze :: "lane list \<Rightarrow> bytes" where
  "squeeze A = take 32 (concat (map bytes_of_lane A))"

definition keccak256 :: "bytes \<Rightarrow> bytes" where
  "keccak256 m = squeeze (absorb (replicate 25 0) (pad m))"

section \<open>Index derivation: the digest formula\<close>

lemma upt_0_3: "[0..<3] = [0, 1, 2]"
  by code_simp

lemma and_2047: "(x::nat) AND 2047 = x mod 2048"
proof -
  have "x AND mask 11 = x mod 2 ^ 11"
    by (simp only: take_bit_eq_mask [symmetric] take_bit_eq_mod)
  then show ?thesis by (simp add: mask_eq_exp_minus_1)
qed

lemma bloom_index_32:
  "length h = 32 \<Longrightarrow> i < 3 \<Longrightarrow> bloom_index h i = Inr (spec_index h i)"
  by (simp add: bloom_index_def byte_at_def spec_index_def and_2047)

lemma bloom_indexes_32:
  "length (keccak data) = 32 \<Longrightarrow>
   bloom_indexes keccak data = Inr (map (spec_index (keccak data)) [0, 1, 2])"
  by (simp add: bloom_indexes_def Let_def upt_0_3 bloom_index_32)

lemma spec_index_lt: "spec_index h i < 2048"
  by (simp add: spec_index_def)

lemma spec_index_arith:
  "spec_index h i = (256 * unat (h ! (2 * i)) + unat (h ! (2 * i + 1))) mod 2048"
proof -
  let ?hi = "unat (h ! (2 * i))" and ?lo = "unat (h ! (2 * i + 1))"
  have lo: "?lo < 2 ^ 8"
    using unsigned_less [of "h ! (2 * i + 1)"] by simp
  have "push_bit 8 ?hi + ?lo = push_bit 8 ?hi OR ?lo"
  proof (rule disjunctive_add)
    fix n
    have "take_bit 8 ?lo = ?lo"
      using lo by (simp add: take_bit_nat_eq_self)
    then have "bit ?lo n \<Longrightarrow> n < 8"
      by (metis bit_take_bit_iff)
    moreover have "bit (push_bit 8 ?hi) n \<Longrightarrow> 8 \<le> n"
      by (simp add: bit_push_bit_iff)
    ultimately show "\<not> bit (push_bit 8 ?hi) n \<or> \<not> bit ?lo n"
      by fastforce
  qed
  then show ?thesis by (simp add: spec_index_def push_bit_eq_mult mult.commute)
qed

lemma bloom_index_lt: "bloom_index h i = Inr v \<Longrightarrow> v < 2048"
  by (auto simp: bloom_index_def and_2047 split: sum.splits)

lemma comprehension_Inr:
  "comprehension f xs = Inr ys \<Longrightarrow> y \<in> set ys \<Longrightarrow> \<exists>x\<in>set xs. f x = Inr y"
  by (induction xs arbitrary: ys) (auto split: sum.splits)

lemma bloom_indexes_lt:
  "bloom_indexes keccak data = Inr idxs \<Longrightarrow> idx \<in> set idxs \<Longrightarrow> idx < 2048"
  by (auto simp: bloom_indexes_def Let_def dest!: comprehension_Inr dest: bloom_index_lt)

section \<open>Membership test: the loop as a quantifier\<close>

lemma rshift_and_1_eq_0: "(drop_bit idx (F::int)) AND 1 = 0 \<longleftrightarrow> \<not> bit F idx"
  by (simp add: and_one_eq bit_iff_odd_drop_bit even_iff_mod_2_eq_zero)

lemma rshift_and_1_eq_1: "(drop_bit idx (F::int)) AND 1 = 1 \<longleftrightarrow> bit F idx"
  by (simp add: and_one_eq bit_iff_odd_drop_bit odd_iff_mod_2_eq_one)

lemma bloom_check_loop_iff: "bloom_check_loop F idxs \<longleftrightarrow> (\<forall>idx\<in>set idxs. bit F idx)"
  by (induction idxs) (simp_all add: rshift_and_1_eq_0)

lemma bloom_check_Inr:
  "bloom_indexes keccak data = Inr idxs \<Longrightarrow>
   bloom_check keccak F data = Inr (\<forall>idx\<in>set idxs. bit F idx)"
  by (simp add: bloom_check_def bloom_check_loop_iff)

lemma bloom_check_Inl:
  "bloom_indexes keccak data = Inl e \<Longrightarrow> bloom_check keccak F data = Inl e"
  by (simp add: bloom_check_def)

lemma bloom_check_low_bits:
  assumes "\<And>n. n < 2048 \<Longrightarrow> bit F n = bit G n"
  shows "bloom_check keccak F data = bloom_check keccak G data"
proof (cases "bloom_indexes keccak data")
  case (Inl e)
  then show ?thesis by (simp add: bloom_check_Inl)
next
  case (Inr idxs)
  then have "\<forall>idx\<in>set idxs. bit F idx = bit G idx"
    using assms bloom_indexes_lt by blast
  with Inr show ?thesis by (simp add: bloom_check_Inr)
qed

lemma bit_mod_2048: "n < 2048 \<Longrightarrow> bit ((F::int) mod 2 ^ 2048) n = bit F n"
  by (simp only: take_bit_eq_mod [symmetric] bit_take_bit_iff) simp

section \<open>Filter construction: which bits are set\<close>

lemma bit_or_single: "bit ((F::int) OR push_bit idx 1) n \<longleftrightarrow> bit F n \<or> n = idx"
  by (auto simp add: bit_or_iff bit_push_bit_iff bit_exp_iff)

lemma bit_set_bits: "bit (set_bits F idxs) n \<longleftrightarrow> bit F n \<or> n \<in> set idxs"
proof (induction idxs arbitrary: F)
  case Nil
  show ?case by (simp add: set_bits_def)
next
  case (Cons idx idxs)
  have "set_bits F (idx # idxs) = set_bits (F OR push_bit idx 1) idxs"
    by (simp only: set_bits_def fold_simps)
  then show ?case
    using Cons.IH [of "F OR push_bit idx 1"] by (simp only: bit_or_single set_simps) blast
qed

lemma bloom_insert_32:
  assumes "\<forall>c\<in>set cs. length (keccak c) = 32"
  shows "\<exists>F. bloom_insert keccak F0 cs = Inr F \<and>
    (\<forall>n. bit F n \<longleftrightarrow> bit F0 n \<or> (\<exists>c\<in>set cs. n \<in> spec_index (keccak c) ` {0, 1, 2}))"
  using assms
proof (induction cs arbitrary: F0)
  case Nil
  then show ?case by simp
next
  case (Cons c cs)
  let ?F1 = "set_bits F0 (map (spec_index (keccak c)) [0, 1, 2])"
  from Cons.prems have c: "bloom_indexes keccak c = Inr (map (spec_index (keccak c)) [0, 1, 2])"
    by (simp add: bloom_indexes_32)
  from Cons.prems have "\<forall>c\<in>set cs. length (keccak c) = 32" by simp
  from Cons.IH [OF this, of ?F1] obtain F where
    F: "bloom_insert keccak ?F1 cs = Inr F"
    and bits: "\<And>n. bit F n \<longleftrightarrow> bit ?F1 n \<or> (\<exists>c\<in>set cs. n \<in> spec_index (keccak c) ` {0, 1, 2})"
    by blast
  have "bloom_insert keccak F0 (c # cs) = Inr F"
    using c F by simp
  moreover have "bit F n \<longleftrightarrow> bit F0 n \<or> (\<exists>c\<in>set (c # cs). n \<in> spec_index (keccak c) ` {0, 1, 2})" for n
    by (auto simp: bits bit_set_bits)
  ultimately show ?case by blast
qed

lemma bloom_of_32:
  assumes "\<forall>c\<in>set cs. length (keccak c) = 32"
  shows "\<exists>F. bloom_of keccak cs = Inr F \<and>
    (\<forall>n. bit F n \<longleftrightarrow> (\<exists>c\<in>set cs. n \<in> spec_index (keccak c) ` {0, 1, 2}))"
  using bloom_insert_32 [OF assms, of 0] by (simp add: bloom_of_def)

lemma bloom_of_member:
  assumes "\<forall>c\<in>set cs. length (keccak c) = 32"
  shows "\<exists>F. bloom_of keccak cs = Inr F \<and> (\<forall>c\<in>set cs. bloom_check keccak F c = Inr True)"
proof -
  from bloom_of_32 [OF assms] obtain F where
    F: "bloom_of keccak cs = Inr F"
    and bits: "\<And>n. bit F n \<longleftrightarrow> (\<exists>c\<in>set cs. n \<in> spec_index (keccak c) ` {0, 1, 2})"
    by blast
  have "bloom_check keccak F c = Inr True" if "c \<in> set cs" for c
  proof -
    from that assms have "bloom_indexes keccak c = Inr (map (spec_index (keccak c)) [0, 1, 2])"
      by (simp add: bloom_indexes_32)
    then have "bloom_check keccak F c = Inr (\<forall>idx\<in>set (map (spec_index (keccak c)) [0, 1, 2]). bit F idx)"
      by (rule bloom_check_Inr)
    moreover have "\<forall>idx\<in>set (map (spec_index (keccak c)) [0, 1, 2]). bit F idx"
      using that by (auto simp: bits)
    ultimately show ?thesis by simp
  qed
  with F show ?thesis by blast
qed

section \<open>Colliding candidates\<close>

lemma bloom_indexes_collision:
  assumes "\<forall>d. length (keccak d) = 32"
  shows "\<exists>x y. x \<noteq> y \<and> bloom_indexes keccak x = bloom_indexes keccak y"
proof -
  let ?f = "\<lambda>d. (spec_index (keccak d) 0, spec_index (keccak d) 1, spec_index (keccak d) 2)"
  have "range ?f \<subseteq> {..<2048} \<times> {..<2048} \<times> {..<2048}"
    by (auto simp: spec_index_lt)
  then have "finite (range ?f)"
    by (rule finite_subset) simp
  moreover have "infinite (UNIV :: bytes set)"
    by (rule infinite_UNIV_listI)
  ultimately have "\<not> inj ?f"
    using finite_imageD by blast
  then obtain x y where "x \<noteq> y" and "?f x = ?f y"
    by (auto simp: inj_on_def)
  with assms have "bloom_indexes keccak x = bloom_indexes keccak y"
    by (simp add: bloom_indexes_32)
  with \<open>x \<noteq> y\<close> show ?thesis by blast
qed

section \<open>Hex parsing: decoding inverts encoding\<close>

lemma hex_digit_hex_char: "n < 16 \<Longrightarrow> hex_digit (hex_char n) = Some n"
  by (auto simp add: hex_digit_def hex_char_def Let_def)

lemma not_space_hex_char: "n < 16 \<Longrightarrow> \<not> is_space (hex_char n)"
  by (auto simp add: is_space_def hex_char_def)

lemma byte_of_nibbles: "(of_nat (16 * (unat b div 16) + unat b mod 16) :: byte) = b"
  by simp

lemma fromhex_hex_of: "fromhex (hex_of bs) = Inr bs"
proof (induction bs)
  case Nil
  show ?case by (simp add: hex_of_def)
next
  case (Cons b bs)
  have hi: "unat b div 16 < 16"
    using unsigned_less [of b, where ?'a = nat] by simp
  have lo: "unat b mod 16 < 16"
    by simp
  have "hex_of (b # bs) = hex_char (unat b div 16) # hex_char (unat b mod 16) # hex_of bs"
    by (simp add: hex_of_def)
  then show ?case
    using Cons.IH hex_digit_hex_char [OF hi] hex_digit_hex_char [OF lo] not_space_hex_char [OF hi]
    by (simp add: byte_of_nibbles)
qed

lemma hex_of_ab: "hex_of [0xab] = ''ab''"
proof -
  have "char_of (97::nat) = CHR ''a''" and "char_of (98::nat) = CHR ''b''"
    by (simp_all add: char_of_def bit_Suc_0_iff)
  then show ?thesis
    by (simp add: hex_of_def hex_char_def)
qed

section \<open>Keccak-256: digest length and a test vector\<close>

lemma upt_0_5: "[0..<5] = [0, 1, 2, 3, 4]"
  by code_simp

lemma upt_0_8: "[0..<8] = [0, 1, 2, 3, 4, 5, 6, 7]"
  by code_simp

lemma upt_0_25: "[0..<25] = [0, 1, 2, 3, 4, 5, 6, 7, 8, 9, 10, 11, 12, 13, 14, 15, 16, 17, 18, 19,
  20, 21, 22, 23, 24]"
  by code_simp

lemma replicate_numeral: "replicate (numeral k) x = x # replicate (pred_numeral k) x"
  by (simp add: numeral_eq_Suc)

lemma absorb_Nil: "absorb A [] = A"
  by (subst absorb.simps) simp

lemma absorb_step:
  "p \<noteq> [] \<Longrightarrow> absorb A p = absorb (absorb_block A (take 136 p)) (drop 136 p)"
  by (subst absorb.simps) simp

lemma length_keccak_round: "length (keccak_round A rc) = 25"
  by (simp add: keccak_round_def iota_def chi_def)

lemma length_keccak_f: "length (keccak_f A) = 25"
  by (simp add: keccak_f_def round_constants_def length_keccak_round)

lemma length_absorb: "length A = 25 \<Longrightarrow> length (absorb A p) = 25"
proof (induction A p rule: absorb.induct)
  case (1 A p)
  show ?case
  proof (cases "p = []")
    case True
    with "1.prems" show ?thesis by (simp add: absorb_Nil)
  next
    case False
    have "length (absorb_block A (take 136 p)) = 25"
      by (simp add: absorb_block_def length_keccak_f)
    with False "1.IH" show ?thesis by (simp add: absorb_step)
  qed
qed

lemma length_concat_lanes: "length (concat (map bytes_of_lane A)) = 8 * length A"
  by (induction A) (simp_all add: bytes_of_lane_def)

text \<open>Every digest has 32 bytes.\<close>

lemma length_keccak256: "length (keccak256 m) = 32"
  by (simp add: keccak256_def squeeze_def length_concat_lanes length_absorb)

text \<open>
  The digest of the empty byte string, the published
  \<open>c5d2460186f7233c927e7db2dcc703c0e500b653ca82273b7bfad8045d85a470\<close>, computed by
  rewriting: the padded block, the permutation, the first four lanes as bytes.
\<close>

lemma pad_empty: "pad [] = 0x01 # replicate 134 0 @ [0x80]"
  by (simp add: pad_def)

lemma absorb_single_block: "length p = 136 \<Longrightarrow> absorb A p = absorb_block A p"
proof -
  assume len: "length p = 136"
  then have "p \<noteq> []"
    by auto
  then have "absorb A p = absorb (absorb_block A (take 136 p)) (drop 136 p)"
    by (rule absorb_step)
  with len show ?thesis
    by (simp add: absorb_Nil)
qed

lemma absorb_lanes_empty:
  "map (absorb_lane (replicate 25 0) (pad [])) [0..<25] =
    [1, 0, 0, 0, 0, 0, 0, 0, 0, 0, 0, 0, 0, 0, 0, 0, 0x8000000000000000, 0, 0, 0, 0, 0, 0, 0, 0]"
  by (simp add: pad_empty absorb_lane_def lane_of_bytes_def upt_0_25 replicate_numeral)

lemmas keccak_round_eval = keccak_round_def iota_def chi_def chi_at_def rho_pi_def rho_pi_at_def
  rho_pi_src_def theta_def theta_at_def theta_D_at_def theta_C_at_def rotation_offsets_def
  rotl64_def not_and64_def upt_0_5 upt_0_25

lemma keccak_f_empty:
  "keccak_f [1, 0, 0, 0, 0, 0, 0, 0, 0, 0, 0, 0, 0, 0, 0, 0, 0x8000000000000000,
             0, 0, 0, 0, 0, 0, 0, 0] =
    [4333579421379646149, 13836122230913597074, 4262519377828905189, 8116759062988257915,
     8406387447366859581, 14671339323370021561, 2243375101132795228, 9371364203318886753,
     9347994793612953298, 12814238161780307547, 4391692840257016808, 4309499098775122448,
     13438072403645551266, 18018124564071650747, 4323130096954625545, 16970298442240338249,
     1971761234120675839, 450719451514497906, 18340686150147091359, 11254645818134300982,
     16062291397582171322, 1601982631079003425, 7734681229251997073, 13256946727218518206,
     11816912122432958423]"
  by (simp add: keccak_f_def round_constants_def keccak_round_eval)

lemma keccak256_empty:
  "keccak256 [] =
    [0xc5, 0xd2, 0x46, 0x01, 0x86, 0xf7, 0x23, 0x3c, 0x92, 0x7e, 0x7d, 0xb2, 0xdc, 0xc7, 0x03, 0xc0,
     0xe5, 0x00, 0xb6, 0x53, 0xca, 0x82, 0x27, 0x3b, 0x7b, 0xfa, 0xd8, 0x04, 0x5d, 0x85, 0xa4, 0x70]"
proof -
  have "length (pad []) = 136"
    by (simp add: pad_empty)
  then show ?thesis
    by (simp add: keccak256_def absorb_single_block absorb_block_def absorb_lanes_empty
        keccak_f_empty squeeze_def bytes_of_lane_def byte_of_lane_def upt_0_8)
qed

lemma bloom_indexes_keccak256_empty: "bloom_indexes keccak256 [] = Inr [1490, 1537, 1783]"
  by (simp add: bloom_indexes_32 length_keccak256 spec_index_def keccak256_empty)

section \<open>A false positive under Keccak-256\<close>

text \<open>
  The two-byte strings \<open>cc 67\<close> and \<open>a4 cc\<close> have the digests \<open>dde7 d00d 9357 ..\<close> and
  \<open>bde7 700d 1357 ..\<close>, which agree in the low 11 bits of each of the first three byte
  pairs: both derive the indices 1511, 13 and 855.
\<close>

lemma pad_cc67: "pad [0xcc, 0x67] = [0xcc, 0x67, 0x01] @ replicate 132 0 @ [0x80]"
  by (simp add: pad_def)

lemma absorb_lanes_cc67:
  "map (absorb_lane (replicate 25 0) (pad [0xcc, 0x67])) [0..<25] =
    [92108, 0, 0, 0, 0, 0, 0, 0, 0, 0, 0, 0, 0, 0, 0, 0, 0x8000000000000000, 0, 0, 0, 0, 0, 0, 0, 0]"
  by (simp add: pad_cc67 absorb_lane_def lane_of_bytes_def upt_0_25 replicate_numeral)

lemma keccak_f_cc67:
  "keccak_f [92108, 0, 0, 0, 0, 0, 0, 0, 0, 0, 0, 0, 0, 0, 0, 0, 0x8000000000000000,
             0, 0, 0, 0, 0, 0, 0, 0] =
    [150403926667093981, 10467714004300862561, 335411695105125622, 4675582630956287640,
     2356144519521775021, 3469489962352523021, 15481119696866012560, 5423428898824091926,
     13157224539240989185, 7649872799717827599, 3050514798080107888, 8785942581788849592,
     12363207650017294820, 17447739427815506822, 16953239183330648169, 9404722933912352449,
     13395818452684977040, 15009199475393614801, 9893003117715135392, 10767165236502653501,
     9721781731206391340, 11832692062490926461, 11408703213936557794, 10152062880714560400,
     5045137489603065197]"
  by (simp add: keccak_f_def round_constants_def keccak_round_eval)

lemma keccak256_cc67:
  "keccak256 [0xcc, 0x67] =
    [0xdd, 0xe7, 0xd0, 0x0d, 0x93, 0x57, 0x16, 0x02, 0x61, 0x14, 0xbc, 0x34, 0x6d, 0xca, 0x44, 0x91,
     0xf6, 0xac, 0x40, 0xdc, 0x28, 0x9f, 0xa7, 0x04, 0x98, 0xc6, 0x22, 0x6c, 0xa1, 0x01, 0xe3, 0x40]"
proof -
  have "length (pad [0xcc, 0x67]) = 136"
    by (simp add: pad_cc67)
  then show ?thesis
    by (simp add: keccak256_def absorb_single_block absorb_block_def absorb_lanes_cc67
        keccak_f_cc67 squeeze_def bytes_of_lane_def byte_of_lane_def upt_0_8)
qed

lemma bloom_indexes_cc67: "bloom_indexes keccak256 [0xcc, 0x67] = Inr [1511, 13, 855]"
  by (simp add: bloom_indexes_32 length_keccak256 spec_index_def keccak256_cc67)

lemma pad_a4cc: "pad [0xa4, 0xcc] = [0xa4, 0xcc, 0x01] @ replicate 132 0 @ [0x80]"
  by (simp add: pad_def)

lemma absorb_lanes_a4cc:
  "map (absorb_lane (replicate 25 0) (pad [0xa4, 0xcc])) [0..<25] =
    [117924, 0, 0, 0, 0, 0, 0, 0, 0, 0, 0, 0, 0, 0, 0, 0, 0x8000000000000000, 0, 0, 0, 0, 0, 0, 0, 0]"
  by (simp add: pad_a4cc absorb_lane_def lane_of_bytes_def upt_0_25 replicate_numeral)

lemma keccak_f_a4cc:
  "keccak_f [117924, 0, 0, 0, 0, 0, 0, 0, 0, 0, 0, 0, 0, 0, 0, 0, 0x8000000000000000,
             0, 0, 0, 0, 0, 0, 0, 0] =
    [9493683753838503869, 2409361098104864098, 6624356156656952512, 7213153944878056932,
     6785487605332317592, 10199120163013095615, 16234585754895242875, 7264398681834810064,
     13871630752990785613, 11372174677955585668, 13865238432469994004, 11441001865420742671,
     11255174994077043548, 11718696939713048033, 14194348575637097422, 11390004627280923132,
     10311666722374751632, 8899297176066455889, 3924465669447579198, 3407871423691931305,
     16200727559484315025, 5354547921332279591, 1823521054895581141, 4192224336818242833,
     9351954786946193913]"
  by (simp add: keccak_f_def round_constants_def keccak_round_eval)

lemma keccak256_a4cc:
  "keccak256 [0xa4, 0xcc] =
    [0xbd, 0xe7, 0x70, 0x0d, 0x13, 0x57, 0xc0, 0x83, 0x62, 0x7d, 0x2f, 0x44, 0x27, 0xc5, 0x6f, 0x21,
     0xc0, 0xa4, 0x35, 0xbf, 0xd3, 0x70, 0xee, 0x5b, 0xe4, 0x05, 0xaa, 0xc2, 0x4b, 0x45, 0x1a, 0x64]"
proof -
  have "length (pad [0xa4, 0xcc]) = 136"
    by (simp add: pad_a4cc)
  then show ?thesis
    by (simp add: keccak256_def absorb_single_block absorb_block_def absorb_lanes_a4cc
        keccak_f_a4cc squeeze_def bytes_of_lane_def byte_of_lane_def upt_0_8)
qed

lemma bloom_indexes_a4cc: "bloom_indexes keccak256 [0xa4, 0xcc] = Inr [1511, 13, 855]"
  by (simp add: bloom_indexes_32 length_keccak256 spec_index_def keccak256_a4cc)

text \<open>
  So the filter that holds \<open>cc 67\<close> alone reports \<open>a4 cc\<close>, which was never inserted, as
  present.
\<close>

lemma false_positive_keccak256:
  "[0xa4, 0xcc] \<notin> set [[0xcc, 0x67 :: byte]] \<and>
   bloom_of keccak256 [[0xcc, 0x67]] = Inr (set_bits 0 [1511, 13, 855]) \<and>
   bloom_check keccak256 (set_bits 0 [1511, 13, 855]) [0xa4, 0xcc] = Inr True"
proof -
  have "bloom_of keccak256 [[0xcc, 0x67]] = Inr (set_bits 0 [1511, 13, 855])"
    by (simp add: bloom_of_def bloom_indexes_cc67)
  moreover have "bloom_check keccak256 (set_bits 0 [1511, 13, 855]) [0xa4, 0xcc] = Inr True"
    by (simp add: bloom_check_Inr [OF bloom_indexes_a4cc] bit_set_bits)
  ultimately show ?thesis
    by simp
qed

section \<open>The claims\<close>

text \<open>
  C1 (no false negatives). Let the field be built by setting exactly the three derived
  bits of each candidate of a finite collection \<open>cs\<close>, the hash giving 32-byte digests on
  them. Then the construction succeeds and \<open>bloom_check\<close> on that field returns true for
  every inserted candidate.
\<close>

theorem no_false_negatives:
  assumes "\<forall>c\<in>set cs. length (keccak c) = 32"
  shows "\<exists>F. bloom_of keccak cs = Inr F \<and>
           (\<forall>n. bit F n \<longleftrightarrow>
              (\<exists>c\<in>set cs. \<exists>idxs. bloom_indexes keccak c = Inr idxs \<and> n \<in> set idxs)) \<and>
           (\<forall>c\<in>set cs. bloom_check keccak F c = Inr True)"
proof -
  from bloom_of_32 [OF assms] obtain F where
    F: "bloom_of keccak cs = Inr F"
    and bits: "\<And>n. bit F n \<longleftrightarrow> (\<exists>c\<in>set cs. n \<in> spec_index (keccak c) ` {0, 1, 2})"
    by blast
  have idxs: "bloom_indexes keccak c = Inr (map (spec_index (keccak c)) [0, 1, 2])"
    if "c \<in> set cs" for c
    using that assms by (simp add: bloom_indexes_32)
  have "bit F n \<longleftrightarrow>
          (\<exists>c\<in>set cs. \<exists>idxs. bloom_indexes keccak c = Inr idxs \<and> n \<in> set idxs)" for n
    unfolding bits using idxs by fastforce
  moreover from bloom_of_member [OF assms] F
  have "\<forall>c\<in>set cs. bloom_check keccak F c = Inr True"
    by auto
  ultimately show ?thesis
    using F by blast
qed

text \<open>The filter holding the empty byte string alone, under Keccak-256.\<close>

theorem no_false_negatives_witness:
  "length (keccak256 []) = 32 \<and>
   bloom_of keccak256 [[]] = Inr (set_bits 0 [1490, 1537, 1783]) \<and>
   bloom_check keccak256 (set_bits 0 [1490, 1537, 1783]) [] = Inr True"
proof -
  have "\<forall>c\<in>set [[]]. length (keccak256 c) = 32"
    by (simp add: length_keccak256)
  from no_false_negatives [OF this] obtain F where
    F: "bloom_of keccak256 [[]] = Inr F"
    and member: "\<forall>c\<in>set [[]]. bloom_check keccak256 F c = Inr True"
    by blast
  have "bloom_of keccak256 [[]] = Inr (set_bits 0 [1490, 1537, 1783])"
    by (simp add: bloom_of_def bloom_indexes_keccak256_empty)
  with F have "F = set_bits 0 [1490, 1537, 1783]"
    by simp
  with F member show ?thesis
    by (simp add: length_keccak256)
qed

text \<open>
  C2 (index derivation). For every byte string whose digest has 32 bytes (every
  Keccak-256 digest has), \<open>bloom_indexes\<close> raises nothing and returns exactly three
  integers, in order and without deduplication: for \<open>i = 0, 1, 2\<close> the value
  \<open>((h[2i] << 8) | h[2i+1]) mod 2048\<close> of the digest \<open>h\<close>; each lies in \<open>[0, 2048)\<close>.
\<close>

theorem bloom_indexes_correct:
  assumes "length (keccak data) = 32"
  shows "\<exists>idxs. bloom_indexes keccak data = Inr idxs \<and>
           idxs = [spec_index (keccak data) 0, spec_index (keccak data) 1,
                   spec_index (keccak data) 2] \<and>
           length idxs = 3 \<and> (\<forall>idx\<in>set idxs. idx < 2048)"
  using assms by (simp add: bloom_indexes_32 spec_index_lt)

text \<open>The empty byte string: its Keccak-256 digest begins \<open>c5 d2 46 01 86 f7\<close>.\<close>

theorem bloom_indexes_correct_witness:
  "length (keccak256 []) = 32 \<and> bloom_indexes keccak256 [] = Inr [1490, 1537, 1783]"
  using bloom_indexes_correct [of keccak256 "[]"]
  by (simp add: length_keccak256 spec_index_def keccak256_empty)

text \<open>
  C3 (membership test). For every integer field \<open>F\<close> (the non-negative ones among them)
  and every byte string with a 32-byte digest, \<open>bloom_check\<close> returns true if and only if
  \<open>(F >> idx) & 1 == 1\<close> for each of the indices \<open>idx\<close> that \<open>bloom_indexes\<close> derives.
\<close>

theorem bloom_check_correct:
  assumes "length (keccak data) = 32"
  shows "\<exists>idxs. bloom_indexes keccak data = Inr idxs \<and>
           bloom_check keccak F data = Inr (\<forall>idx\<in>set idxs. (drop_bit idx F) AND 1 = 1)"
  using assms by (simp add: bloom_indexes_32 bloom_check_Inr rshift_and_1_eq_1)

text \<open>
  The empty byte string has indices 1490, 1537 and 1783: the field with exactly these bits
  contains it, the field with only the first two does not.
\<close>

theorem bloom_check_correct_witness:
  "length (keccak256 []) = 32 \<and>
   bloom_check keccak256 (push_bit 1490 1 OR push_bit 1537 1 OR push_bit 1783 1) [] = Inr True \<and>
   bloom_check keccak256 (push_bit 1490 1 OR push_bit 1537 1) [] = Inr False"
  using bloom_check_correct [of keccak256 "[]" "push_bit 1490 1 OR push_bit 1537 1 OR push_bit 1783 1"]
    bloom_check_correct [of keccak256 "[]" "push_bit 1490 1 OR push_bit 1537 1"]
  by (simp add: length_keccak256 bloom_indexes_keccak256_empty rshift_and_1_eq_1 bit_or_iff
      bit_push_bit_iff bit_exp_iff)

text \<open>
  C4 (consistency classification), as the program behaves. The verification step decides
  on the aggregate of the membership results of the address and of the topic (each
  \<open>None\<close> when not tested): for a count \<open>c \<ge> 0\<close> it prints, after the count, exactly one
  of three things: the soundness warning iff some tested candidate is absent and \<open>c > 0\<close>,
  the false-positive note iff some tested candidate is present and \<open>c = 0\<close>, and nothing
  otherwise. With a single candidate, or two whose results agree, of result \<open>b\<close>, that is:
  the warning iff \<open>b\<close> is false and \<open>c > 0\<close>, the note iff \<open>b\<close> is true and \<open>c = 0\<close>,
  nothing otherwise.
\<close>

theorem consistency_classification:
  assumes "0 \<le> c"
  shows "verify_lines addr_ok topic_ok c =
           LogsFound c #
             (if (addr_ok = Some False \<or> topic_ok = Some False) \<and> 0 < c then [SoundnessWarning]
              else if (addr_ok = Some True \<or> topic_ok = Some True) \<and> c = 0
                   then [FalsePositiveNote]
              else [])
         \<and> verify_lines (Some b) None c =
           LogsFound c # (if \<not> b \<and> 0 < c then [SoundnessWarning]
                          else if b \<and> c = 0 then [FalsePositiveNote] else [])
         \<and> verify_lines None (Some b) c = verify_lines (Some b) None c
         \<and> verify_lines (Some b) (Some b) c = verify_lines (Some b) None c"
  by (simp add: verify_lines_def)

text \<open>
  Address absent, topic present, three logs found: the soundness warning; a single absent
  result with three logs: the same.
\<close>

theorem consistency_classification_witness:
  "(0::int) \<le> 3 \<and>
   verify_lines (Some False) (Some True) 3 = [LogsFound 3, SoundnessWarning] \<and>
   verify_lines (Some False) None 3 = [LogsFound 3, SoundnessWarning] \<and>
   verify_lines None (Some False) 3 = [LogsFound 3, SoundnessWarning]"
  using consistency_classification [of 3 "Some False" "Some True" False] by simp

text \<open>
  The claim as it was stated (the outcome is decided by one membership boolean \<open>b\<close>) does
  not hold when the address and the topic are both tested and disagree. With the address
  present and the topic absent, three logs give the soundness warning, though the address
  result is true, and no logs give the false-positive note, though the topic result is
  false: neither boolean decides both outcomes.
\<close>

theorem consistency_classification_counterexample:
  "verify_lines (Some True) (Some False) 3 = [LogsFound 3, SoundnessWarning] \<and>
   verify_lines (Some True) (Some False) 0 = [LogsFound 0, FalsePositiveNote]"
  by (simp add: verify_lines_def)

text \<open>
  C5 (false positives are possible). Whenever the hash gives 32-byte digests, there are a
  collection of candidates \<open>cs\<close>, the field \<open>F\<close> built from them, and a candidate \<open>c\<close> not
  among them on which \<open>bloom_check\<close> returns true: infinitely many byte strings share
  finitely many index triples.
\<close>

theorem false_positive_exists:
  assumes "\<forall>d. length (keccak d) = 32"
  shows "\<exists>cs c F. c \<notin> set cs \<and> bloom_of keccak cs = Inr F \<and> bloom_check keccak F c = Inr True"
proof -
  from bloom_indexes_collision [OF assms] obtain x y where
    neq: "x \<noteq> y" and same: "bloom_indexes keccak x = bloom_indexes keccak y"
    by blast
  from assms have "\<forall>c\<in>set [x]. length (keccak c) = 32"
    by simp
  from bloom_of_member [OF this] obtain F where
    F: "bloom_of keccak [x] = Inr F" and x: "bloom_check keccak F x = Inr True"
    by auto
  from same have "bloom_check keccak F y = bloom_check keccak F x"
    by (simp add: bloom_check_def)
  with neq F x have "y \<notin> set [x] \<and> bloom_of keccak [x] = Inr F \<and> bloom_check keccak F y = Inr True"
    by simp
  then show ?thesis by blast
qed

text \<open>Keccak-256 is such a hash.\<close>

theorem false_positive_exists_witness:
  "\<exists>cs c F. c \<notin> set cs \<and> bloom_of keccak256 cs = Inr F \<and> bloom_check keccak256 F c = Inr True"
  using false_positive_exists [of keccak256] by (simp add: length_keccak256)

text \<open>
  C6 (field width), as the program behaves. \<open>bloom_check\<close> does not validate the width of
  the field: for every field \<open>F \<ge> 2 ^ 2048\<close> and every byte string with a 32-byte digest it
  returns a boolean, the one it returns for \<open>F mod 2 ^ 2048\<close>, and no error.
\<close>

theorem field_width_unchecked:
  assumes "2 ^ 2048 \<le> F" and "length (keccak data) = 32"
  shows "\<exists>b. bloom_check keccak F data = Inr b \<and>
             bloom_check keccak (F mod 2 ^ 2048) data = Inr b"
proof -
  have "bloom_check keccak F data = bloom_check keccak (F mod 2 ^ 2048) data"
    by (rule bloom_check_low_bits) (simp only: bit_mod_2048)
  moreover from assms(2) have "\<exists>b. bloom_check keccak F data = Inr b"
    by (simp add: bloom_indexes_32 bloom_check_Inr)
  ultimately show ?thesis by auto
qed

theorem field_width_unchecked_witness:
  "(2::int) ^ 2048 \<le> 2 ^ 2048 \<and> length (keccak256 []) = 32 \<and>
   (\<exists>b. bloom_check keccak256 (2 ^ 2048) [] = Inr b \<and>
        bloom_check keccak256 (2 ^ 2048 mod 2 ^ 2048) [] = Inr b)"
  using field_width_unchecked [of "2 ^ 2048" keccak256 "[]"] length_keccak256 [of "[]"]
  by blast

text \<open>
  The claim as it was stated (a field of more than 2048 bits makes the membership test
  fail with an invalid-input error) does not hold: on the field \<open>2 ^ 2048\<close> and the empty
  byte string \<open>bloom_check\<close> returns false.
\<close>

theorem field_width_unchecked_counterexample:
  "(2::int) ^ 2048 \<le> 2 ^ 2048 \<and> bloom_check keccak256 (2 ^ 2048) [] = Inr False"
proof -
  have "bloom_check keccak256 (2 ^ 2048) [] =
          Inr (\<forall>idx\<in>set [1490, 1537, 1783]. bit ((2::int) ^ 2048) idx)"
    using bloom_indexes_keccak256_empty by (rule bloom_check_Inr)
  moreover have "\<not> bit ((2::int) ^ 2048) 1490"
    by (simp only: bit_exp_iff) simp
  ultimately show ?thesis
    by (simp only: list.set ball_simps) simp
qed

text \<open>
  C7 (candidate length), as the program behaves. \<open>parse_hex\<close> checks the \<open>0x\<close> prefix and
  the hexadecimal digits, never the length: the \<open>0x\<close>-prefixed hexadecimal text of any byte
  string, whatever its length, is decoded to that byte string; a text without the prefix
  raises the ValueError \<open>kind must be 0x-prefixed hex\<close>; and parsing succeeds exactly when
  the prefix is there and \<open>bytes.fromhex\<close> accepts the rest.
\<close>

theorem parse_hex_any_length:
  "parse_hex (''0x'' @ hex_of bs) kind = Inr bs \<and>
   (take 2 s \<noteq> ''0x'' \<longrightarrow> parse_hex s kind = Inl (ValueError (kind @ '' must be 0x-prefixed hex''))) \<and>
   (parse_hex s kind = Inr bs' \<longleftrightarrow> take 2 s = ''0x'' \<and> fromhex (drop 2 s) = Inr bs')"
  by (simp add: parse_hex_def fromhex_hex_of)

theorem parse_hex_any_length_witness:
  "parse_hex ''0xab'' ''topic0'' = Inr [0xab] \<and>
   parse_hex ''ab'' ''topic0'' = Inl (ValueError ''topic0 must be 0x-prefixed hex'')"
  using parse_hex_any_length [of "[0xab]" "''topic0''" "''ab''" "[]"]
  by (simp add: hex_of_ab)

text \<open>
  The claim as it was stated (a decoding of the wrong length is an input-format error) does
  not hold: the topic text \<open>0x00\<close> is parsed to one byte, not 32, without error.
\<close>

theorem parse_hex_length_counterexample:
  "parse_hex ''0x00'' ''topic0'' = Inr [0x00] \<and> length [0x00 :: byte] \<noteq> 32"
  by (simp add: parse_hex_def hex_digit_def is_space_def)

text \<open>
  C9 (only the low 2048 bits matter). For every integer field \<open>F\<close> (the non-negative ones
  among them) \<open>bloom_check\<close> gives the same result on \<open>F\<close> and on \<open>F mod 2 ^ 2048\<close>; two
  fields that agree on bits \<open>0 .. 2047\<close> give the same result; and a field of any width is
  accepted, the result being a boolean whenever the digest has 32 bytes.
\<close>

theorem low_bits_only:
  "bloom_check keccak F data = bloom_check keccak (F mod 2 ^ 2048) data \<and>
   ((\<forall>n<2048. bit F n = bit G n) \<longrightarrow> bloom_check keccak F data = bloom_check keccak G data) \<and>
   (length (keccak data) = 32 \<longrightarrow> (\<exists>b. bloom_check keccak F data = Inr b))"
proof (intro conjI impI)
  show "bloom_check keccak F data = bloom_check keccak (F mod 2 ^ 2048) data"
    by (rule bloom_check_low_bits) (simp only: bit_mod_2048)
next
  assume "\<forall>n<2048. bit F n = bit G n"
  then show "bloom_check keccak F data = bloom_check keccak G data"
    by (intro bloom_check_low_bits) blast
next
  assume "length (keccak data) = 32"
  then show "\<exists>b. bloom_check keccak F data = Inr b"
    by (simp add: bloom_indexes_32 bloom_check_Inr)
qed

theorem low_bits_only_witness:
  "bloom_check keccak256 (2 ^ 2048) [] = bloom_check keccak256 (2 ^ 2048 mod 2 ^ 2048) [] \<and>
   bloom_check keccak256 (2 ^ 2048) [] = bloom_check keccak256 0 [] \<and>
   length (keccak256 []) = 32 \<and>
   (\<exists>b. bloom_check keccak256 (2 ^ 2048) [] = Inr b)"
proof -
  have "\<forall>n<2048. bit ((2::int) ^ 2048) n = bit (0::int) n"
    by (simp only: bit_exp_iff) simp
  with low_bits_only [of keccak256 "2 ^ 2048" "[]" 0] length_keccak256 [of "[]"] show ?thesis
    by blast
qed

text \<open>
  C10 (monotonicity). If every set bit of \<open>F\<close> is set in \<open>F'\<close> (\<open>F AND F' = F\<close>) and
  \<open>bloom_check\<close> returns true on \<open>F\<close>, it returns true on \<open>F'\<close>; and on the all-ones
  2048-bit field it returns true for every candidate with a 32-byte digest.
\<close>

theorem bloom_check_monotone:
  "(F AND F' = F \<longrightarrow> bloom_check keccak F data = Inr True \<longrightarrow>
      bloom_check keccak F' data = Inr True) \<and>
   (length (keccak data) = 32 \<longrightarrow> bloom_check keccak (2 ^ 2048 - 1) data = Inr True)"
proof (intro conjI impI)
  assume sub: "F AND F' = F" and F: "bloom_check keccak F data = Inr True"
  have imp: "bit F' n" if "bit F n" for n
  proof -
    from that sub have "bit (F AND F') n" by simp
    then show ?thesis by (simp add: bit_and_iff)
  qed
  show "bloom_check keccak F' data = Inr True"
  proof (cases "bloom_indexes keccak data")
    case (Inl e)
    with F show ?thesis by (simp add: bloom_check_Inl)
  next
    case (Inr idxs)
    with F have "\<forall>idx\<in>set idxs. bit F idx"
      by (simp add: bloom_check_Inr)
    with imp have "\<forall>idx\<in>set idxs. bit F' idx"
      by blast
    with Inr show ?thesis by (simp add: bloom_check_Inr)
  qed
next
  assume len: "length (keccak data) = 32"
  have "bit ((2::int) ^ 2048 - 1) n" if "n < 2048" for n
    using that by (simp only: mask_eq_exp_minus_1 [symmetric] bit_mask_iff) simp
  with len show "bloom_check keccak (2 ^ 2048 - 1) data = Inr True"
    by (simp only: bloom_indexes_32 bloom_check_Inr) (simp add: spec_index_lt)
qed

theorem bloom_check_monotone_witness:
  "(push_bit 1490 1 OR push_bit 1537 1 OR push_bit 1783 1) AND
     ((push_bit 1490 1 OR push_bit 1537 1 OR push_bit 1783 1) OR push_bit 5 1) =
     (push_bit 1490 1 OR push_bit 1537 1 OR push_bit 1783 (1::int)) \<and>
   bloom_check keccak256 (push_bit 1490 1 OR push_bit 1537 1 OR push_bit 1783 1) [] = Inr True \<and>
   bloom_check keccak256 ((push_bit 1490 1 OR push_bit 1537 1 OR push_bit 1783 1) OR push_bit 5 1) []
     = Inr True \<and>
   length (keccak256 []) = 32 \<and>
   bloom_check keccak256 (2 ^ 2048 - 1) [] = Inr True"
proof -
  let ?F = "push_bit 1490 1 OR push_bit 1537 1 OR push_bit 1783 (1::int)"
  have sub: "?F AND (?F OR push_bit 5 1) = ?F"
    by (rule bit_eqI) (auto simp only: bit_and_iff bit_or_iff)
  have F: "bloom_check keccak256 ?F [] = Inr True"
    by (simp only: bloom_check_Inr [OF bloom_indexes_keccak256_empty] bit_or_iff bit_push_bit_iff
        bit_1_iff) simp
  from bloom_check_monotone [of ?F "?F OR push_bit 5 1" keccak256 "[]"] sub F
    length_keccak256 [of "[]"]
  show ?thesis by blast
qed

end
